theory Spec2Isabelle
  imports Complex_Main "HOL-Library.Stream"
begin

section \<open>The interaction channel \<open>c12e\<close>: \<open>nu_e + 12C -> X + e-\<close>\<close>

text \<open>
  Python floats are modelled as real numbers: the decimal literals of the source are the
  rationals they denote, and arithmetic is exact, with one exception. The time of an event
  and the bounds of its bin are computed as the program computes them, in IEEE 754 double
  precision: each sum and product is the exact result rounded by \<open>round_double\<close>.
\<close>

definition e_thr :: real where
  "e_thr = 17.338"

definition epsilon :: real where
  "epsilon = 0.001"

definition bounds_eNu :: "real \<times> real" where
  "bounds_eNu = (e_thr + 0.8, 100)"

definition get_eE :: "real \<Rightarrow> real \<Rightarrow> real" where
  "get_eE eNu cosT = eNu - e_thr"

text \<open>\<open>bounds_eE\<close> calls \<open>get_eE(eNu)\<close>, that is with the default \<open>cosT = 0\<close>.\<close>

definition bounds_eE :: "real \<Rightarrow> real \<times> real" where
  "bounds_eE eNu = (get_eE eNu 0 - epsilon, get_eE eNu 0 + epsilon)"

definition sigma0 :: real where
  "sigma0 = 3.439 / 10 ^ 44 * (5.067731 * 10 ^ 10) ^ 2"

definition dSigma_dE :: "real \<Rightarrow> real \<Rightarrow> real" where
  "dSigma_dE eNu eE =
     (if \<bar>get_eE eNu 0 - eE\<bar> > epsilon then 0
      else let a1 = 10.164; a2 = - 0.4666; a3 = 0.0546;
               sigma = sigma0 * (a1 * (eNu - e_thr) + a2 * (eNu - e_thr) ^ 2
                                 + a3 * (eNu - e_thr) ^ 3)
           in sigma / (2 * epsilon))"

definition dSigma_dCosT :: "real \<Rightarrow> real \<Rightarrow> real" where
  "dSigma_dCosT eNu cosT = (if \<bar>cosT\<bar> > 1 then 0 else 0.5)"

section \<open>Python values: errors, outcomes, ranges, indexing, randomness\<close>

datatype py_error = ZeroDivisionError | ValueError | IndexError | KeyError

text \<open>
  A call either returns a value, raises an exception, or never returns (the accept loop of
  the rejection sampler has no iteration cap).
\<close>

datatype 'a outcome = Returns 'a | Raises py_error | Diverges

text \<open>\<open>range(start, stop, step)\<close> for a positive step, the only kind the program uses.\<close>

function py_range :: "int \<Rightarrow> int \<Rightarrow> int \<Rightarrow> int list" where
  "py_range start stop step =
     (if 0 < step \<and> start < stop then start # py_range (start + step) stop step else [])"
  by pat_completeness auto
termination
  by (relation "measure (\<lambda>(start, stop, step). nat (stop - start))") auto

declare py_range.simps [simp del]

text \<open>\<open>xs[i]\<close>: a negative index counts from the end, an index out of range raises.\<close>

definition py_index :: "'a list \<Rightarrow> int \<Rightarrow> py_error + 'a" where
  "py_index xs i =
     (if 0 \<le> i \<and> i < int (length xs) then Inr (xs ! nat i)
      else if i < 0 \<and> - int (length xs) \<le> i then Inr (xs ! nat (int (length xs) + i))
      else Inl IndexError)"


text \<open>
  IEEE 754 binary64 arithmetic, rounding to nearest with ties to even: a float operation
  of the program returns the exact result rounded to a double. A double is an integer
  multiple of its unit in the last place, \<open>2 ^ (e - 52)\<close> for a number in
  \<open>[2 ^ e, 2 ^ (e + 1))\<close>, with the exponent \<open>e\<close> not below \<open>-1022\<close> (below
  \<open>2 ^ -1022\<close> the doubles are subnormal, with the spacing \<open>2 ^ -1074\<close>). The exponent
  has no upper limit here: the overflow to infinity of a result from \<open>2 ^ 1024 - 2 ^ 970\<close>
  on is not modelled.
\<close>

definition round_half_even :: "real \<Rightarrow> int" where
  "round_half_even q =
     (let f = \<lfloor>q\<rfloor>
      in if q - real_of_int f < 1 / 2 then f
         else if 1 / 2 < q - real_of_int f then f + 1
         else if even f then f else f + 1)"

definition double_exponent :: "real \<Rightarrow> int" where
  "double_exponent x = max \<lfloor>log 2 \<bar>x\<bar>\<rfloor> (- 1022)"

definition double_ulp :: "real \<Rightarrow> real" where
  "double_ulp x = 2 powr real_of_int (double_exponent x - 52)"

definition round_double :: "real \<Rightarrow> real" where
  "round_double x =
     (if x = 0 then 0
      else real_of_int (round_half_even (x / double_ulp x)) * double_ulp x)"

text \<open>
  The state of the random number generator is the stream of the values that
  \<open>random.random()\<close> is going to return; a call takes the head and leaves the tail.
\<close>

type_synonym rng = "real stream"

definition random_random :: "rng \<Rightarrow> real \<times> rng" where
  "random_random s = (shd s, stl s)"

text \<open>The documented range of \<open>random.random()\<close>: every draw lies in \<open>[0, 1)\<close>.\<close>

definition unit_draws :: "rng \<Rightarrow> bool" where
  "unit_draws s \<longleftrightarrow> (\<forall>n. 0 \<le> s !! n \<and> s !! n < 1)"

section \<open>\<open>channel.py\<close>: the channel and flux that \<open>main\<close> imports\<close>

text \<open>
  \<open>main\<close> picks the channel module by name and reads these attributes from it; the flux
  module's \<open>nu_emission\<close>, the normalization and scipy's \<open>integrate.quad\<close> (its
  first result, as a function of the integrand and the two limits) complete the
  environment the event generation runs in.
\<close>

record channel =
  ch_dSigma_dE :: "real \<Rightarrow> real \<Rightarrow> real"
  ch_get_eE :: "real \<Rightarrow> real \<Rightarrow> real"
  ch_dSigma_dCosT :: "real \<Rightarrow> real \<Rightarrow> real"
  ch_bounds_eE :: "real \<Rightarrow> real \<times> real"
  ch_bounds_eNu :: "real \<times> real"
  ch_targets_per_molecule :: real
  ch_pid :: int

text \<open>
  The channel \<open>c12e\<close> as \<open>main\<close> sees it. The module defines neither
  \<open>targets_per_molecule\<close> nor \<open>pid\<close>, so both are parameters here.
\<close>

definition c12e :: "real \<Rightarrow> int \<Rightarrow> channel" where
  "c12e tpm p =
     \<lparr>ch_dSigma_dE = dSigma_dE, ch_get_eE = get_eE, ch_dSigma_dCosT = dSigma_dCosT,
      ch_bounds_eE = bounds_eE, ch_bounds_eNu = bounds_eNu,
      ch_targets_per_molecule = tpm, ch_pid = p\<rparr>"

record env =
  chan :: channel
  nu_emission :: "real \<Rightarrow> real \<Rightarrow> real"
  normalization :: real
  quad :: "(real \<Rightarrow> real) \<Rightarrow> real \<Rightarrow> real \<Rightarrow> real"

definition dSquared :: real where
  "dSquared = (1.563738 * 10 ^ 33) ^ 2"

definition dFlux_dE :: "env \<Rightarrow> real \<Rightarrow> real \<Rightarrow> real" where
  "dFlux_dE E eNu time =
     (let emission = nu_emission E eNu time
      in 1 / (4 * pi * dSquared) * emission * normalization E)"

definition ddEventRate :: "env \<Rightarrow> real \<Rightarrow> real \<Rightarrow> real \<Rightarrow> real" where
  "ddEventRate E eE eNu time = ch_dSigma_dE (chan E) eNu eE * dFlux_dE E eNu time"

section \<open>\<open>channel.py\<close>: rejection sampling\<close>

text \<open>The two \<open>for\<close> loops that estimate the maximum of \<open>dist\<close> (written \<open>distf\<close>: \<open>dist\<close> is the metric of HOL).\<close>

fun coarse_pass ::
  "(real \<Rightarrow> real) \<Rightarrow> real \<Rightarrow> real \<Rightarrow> int list \<Rightarrow> real \<times> int \<Rightarrow> real \<times> int" where
  "coarse_pass distf min_val bw [] (p_max, j_max) = (p_max, j_max)"
| "coarse_pass distf min_val bw (j # js) (p_max, j_max) =
     (let val = min_val + bw * (real_of_int j + 0.5); p = distf val
      in if p > p_max then coarse_pass distf min_val bw js (p, j)
         else coarse_pass distf min_val bw js (p_max, j_max))"

fun fine_pass :: "(real \<Rightarrow> real) \<Rightarrow> real \<Rightarrow> real \<Rightarrow> int list \<Rightarrow> real \<Rightarrow> real" where
  "fine_pass distf min_val bw [] p_max = p_max"
| "fine_pass distf min_val bw (j # js) p_max =
     (let val = min_val + bw * (real_of_int j + 0.5); p = distf val
      in if p > p_max then fine_pass distf min_val bw js p
         else fine_pass distf min_val bw js p_max)"

text \<open>\<open>while True\<close>: two draws per round, the value first, then the threshold.\<close>

partial_function (option) accept_loop ::
  "(real \<Rightarrow> real) \<Rightarrow> real \<Rightarrow> real \<Rightarrow> real \<Rightarrow> rng \<Rightarrow> (real \<times> rng) option" where
  "accept_loop distf min_val max_val p_max s =
     (let (r1, s1) = random_random s;
          val = min_val + (max_val - min_val) * r1;
          (r2, s2) = random_random s1
      in if p_max * r2 < distf val then Some (val, s2)
         else accept_loop distf min_val max_val p_max s2)"

definition estimate_p_max :: "(real \<Rightarrow> real) \<Rightarrow> real \<Rightarrow> real \<Rightarrow> int \<Rightarrow> real" where
  "estimate_p_max distf min_val max_val n_bins =
     (let bin_width = (max_val - min_val) / real_of_int n_bins;
          (p_max, j_max) = coarse_pass distf min_val bin_width (py_range 0 n_bins 10) (0, 0)
      in fine_pass distf min_val bin_width
           (py_range (max (j_max - 9) 0) (min (j_max + 10) n_bins) 1) p_max)"

definition rejection_sample ::
  "(real \<Rightarrow> real) \<Rightarrow> real \<Rightarrow> real \<Rightarrow> int \<Rightarrow> rng \<Rightarrow> (real \<times> rng) outcome" where
  "rejection_sample distf min_val max_val n_bins s =
     (if n_bins = 0 then Raises ZeroDivisionError
      else let p_max = estimate_p_max distf min_val max_val n_bins
           in case accept_loop distf min_val max_val p_max s of
                None \<Rightarrow> Diverges
              | Some r \<Rightarrow> Returns r)"

section \<open>\<open>channel.py\<close>: event generation\<close>

definition get_eNu :: "env \<Rightarrow> real \<Rightarrow> rng \<Rightarrow> (real \<times> rng) outcome" where
  "get_eNu E time s =
     (let distf = (\<lambda>eNu'. quad E (\<lambda>eE. ddEventRate E eE eNu' time)
                            (fst (ch_bounds_eE (chan E) eNu')) (snd (ch_bounds_eE (chan E) eNu')))
      in rejection_sample distf (fst (ch_bounds_eNu (chan E))) (snd (ch_bounds_eNu (chan E))) 200 s)"

text \<open>\<open>math.acos\<close> raises \<open>ValueError\<close> outside \<open>[-1, 1]\<close>.\<close>

definition get_direction :: "env \<Rightarrow> real \<Rightarrow> rng \<Rightarrow> ((real \<times> real \<times> real) \<times> rng) outcome" where
  "get_direction E eNu s =
     (let distf = (\<lambda>x. ch_dSigma_dCosT (chan E) eNu x)
      in case rejection_sample distf (- 1) 1 200 s of
           Diverges \<Rightarrow> Diverges
         | Raises e \<Rightarrow> Raises e
         | Returns (cosT, s1) \<Rightarrow>
             if cosT < - 1 \<or> 1 < cosT then Raises ValueError
             else let sinT = sin (arccos cosT);
                      (r, s2) = random_random s1;
                      phi = 2 * pi * r
                  in Returns ((sinT * cos phi, sinT * sin phi, cosT), s2))"

text \<open>One line of the output file: \<open>t, pid, ene, dirx, diry, dirz\<close>.\<close>

record event =
  ev_t :: real
  ev_pid :: int
  ev_ene :: real
  ev_dirx :: real
  ev_diry :: real
  ev_dirz :: real

definition bin_width :: real where
  "bin_width = 1"

text \<open>
  The body of the inner loop: one event of bin \<open>i\<close>. The product
  \<open>random.random() * bin_width\<close> and its sum with the float \<open>boundsMin\<close> are float
  operations.
\<close>

definition gen_event :: "env \<Rightarrow> real \<Rightarrow> real list \<Rightarrow> int \<Rightarrow> rng \<Rightarrow> (event \<times> rng) outcome" where
  "gen_event E boundsMin binned_t i s =
     (let (r, s1) = random_random s;
          t = round_double (boundsMin + round_double (r * bin_width))
      in case py_index binned_t i of
           Inl e \<Rightarrow> Raises e
         | Inr bt \<Rightarrow>
            (case get_eNu E bt s1 of
               Diverges \<Rightarrow> Diverges
             | Raises e \<Rightarrow> Raises e
             | Returns (eNu, s2) \<Rightarrow>
                (case get_direction E eNu s2 of
                   Diverges \<Rightarrow> Diverges
                 | Raises e \<Rightarrow> Raises e
                 | Returns ((dirx, diry, dirz), s3) \<Rightarrow>
                     let ene = ch_get_eE (chan E) eNu dirz
                     in Returns (\<lparr>ev_t = t, ev_pid = ch_pid (chan E), ev_ene = ene,
                                  ev_dirx = dirx, ev_diry = diry, ev_dirz = dirz\<rparr>, s3))))"








section \<open>\<open>channel.py\<close>: the preparation section\<close>

text \<open>
  The calls that \<open>main\<close> makes into scipy, in order: \<open>integrate.nquad\<close> at a time
  \<open>t\<close>, and the interpolation constructor \<open>interpolate.pchip\<close> on the two lists.
\<close>

datatype call = Call_nquad real | Call_pchip "real list" "real list"

definition detectors :: "string \<rightharpoonup> real" where
  "detectors = [''SuperK'' \<mapsto> 32.5, ''HyperK'' \<mapsto> 220]"

definition molecules_per_kt :: real where
  "molecules_per_kt = 3.343 * 10 ^ 31"

text \<open>
  \<open>for t in raw_times\<close>; \<open>nquad t\<close> is the first result of
  \<open>integrate.nquad(ddEventRate, [bounds_eE, bounds_eNu], args=[t])\<close>.
\<close>

fun raw_nevts_loop ::
  "(real \<Rightarrow> real) \<Rightarrow> real \<Rightarrow> real list \<Rightarrow> real list \<times> call list \<Rightarrow> real list \<times> call list" where
  "raw_nevts_loop nquad n_targets [] (raw_nevts, calls) = (raw_nevts, calls)"
| "raw_nevts_loop nquad n_targets (t # ts) (raw_nevts, calls) =
     (let simnevt = n_targets * nquad t
      in raw_nevts_loop nquad n_targets ts (raw_nevts @ [simnevt], calls @ [Call_nquad t]))"

text \<open>
  From the lookup of the detector to the construction of the interpolant; \<open>pchip\<close> is
  scipy's constructor, which returns the interpolant or raises.
\<close>

definition main_prepare ::
  "channel \<Rightarrow> string \<Rightarrow> (real \<Rightarrow> real) \<Rightarrow> (real list \<Rightarrow> real list \<Rightarrow> py_error + 'c) \<Rightarrow> real list
     \<Rightarrow> call list \<times> (py_error + 'c)" where
  "main_prepare ch detector nquad pchip raw_times =
     (case detectors detector of
        None \<Rightarrow> ([], Inl KeyError)
      | Some mass \<Rightarrow>
          let n_targets = ch_targets_per_molecule ch * molecules_per_kt * mass;
              (raw_nevts, calls) = raw_nevts_loop nquad n_targets raw_times ([], [])
          in (calls @ [Call_pchip raw_times raw_nevts], pchip raw_times raw_nevts))"

section \<open>Rounds of the accept loop\<close>

text \<open>
  The acceptance test of the source in round \<open>k\<close> of the loop, on the draws
  \<open>2 k\<close> and \<open>2 k + 1\<close> of the generator.
\<close>

definition round_accepts :: "(real \<Rightarrow> real) \<Rightarrow> real \<Rightarrow> real \<Rightarrow> real \<Rightarrow> rng \<Rightarrow> nat \<Rightarrow> bool" where
  "round_accepts distf min_val max_val p_max s k \<longleftrightarrow>
     p_max * (s !! (2 * k + 1)) < distf (min_val + (max_val - min_val) * (s !! (2 * k)))"

section \<open>The rejection sampler as the specification words it\<close>

text \<open>
  The specification's description of the sampler, to compare the source with: the
  interval is cut into \<open>n_bins\<close> equal cells, cell \<open>j\<close> has its centre at
  \<open>spec_cell_center\<close>; the coarse pass looks at every 10th cell, the fine pass at
  the cells within 9 of the coarse maximum, clamped to the range; round \<open>k\<close> draws
  \<open>val\<close>, then \<open>u\<close>, and accepts when \<open>u < dist val\<close>.
\<close>

definition spec_cell_center :: "real \<Rightarrow> real \<Rightarrow> int \<Rightarrow> int \<Rightarrow> real" where
  "spec_cell_center min_val max_val n_bins j =
     min_val + (real_of_int j + 1 / 2) * ((max_val - min_val) / real_of_int n_bins)"

definition spec_coarse_cells :: "int \<Rightarrow> int set" where
  "spec_coarse_cells n_bins = {j. 0 \<le> j \<and> j < n_bins \<and> j mod 10 = 0}"

definition spec_fine_cells :: "int \<Rightarrow> int \<Rightarrow> int set" where
  "spec_fine_cells n_bins j_max = {j. j_max - 9 \<le> j \<and> j \<le> j_max + 9 \<and> 0 \<le> j \<and> j < n_bins}"

definition spec_draw_val :: "real \<Rightarrow> real \<Rightarrow> rng \<Rightarrow> nat \<Rightarrow> real" where
  "spec_draw_val min_val max_val s k = min_val + (max_val - min_val) * (s !! (2 * k))"

definition spec_draw_u :: "real \<Rightarrow> rng \<Rightarrow> nat \<Rightarrow> real" where
  "spec_draw_u p_max s k = p_max * (s !! (2 * k + 1))"

definition spec_accepts :: "(real \<Rightarrow> real) \<Rightarrow> real \<Rightarrow> real \<Rightarrow> real \<Rightarrow> rng \<Rightarrow> nat \<Rightarrow> bool" where
  "spec_accepts distf min_val max_val p_max s k \<longleftrightarrow>
     spec_draw_u p_max s k < distf (spec_draw_val min_val max_val s k)"

section \<open>What a bin wrote\<close>



section \<open>An example: a constant flux integral and a generator that always returns 1/2\<close>

text \<open>
  An environment to run the model in: the channel \<open>c12e\<close> with one target per molecule
  and particle id 11, and a quadrature whose result is 1 for every integrand. With every draw
  equal to 1/2 each event has neutrino energy 59.069 and direction \<open>(-1, 0, 0)\<close>.
\<close>

definition example_env :: env where
  "example_env =
     \<lparr>chan = c12e 1 11, nu_emission = (\<lambda>eNu t. 1), normalization = 1, quad = (\<lambda>f a b. 1)\<rparr>"


definition example_event :: "real \<Rightarrow> event" where
  "example_event t =
     \<lparr>ev_t = t, ev_pid = 11, ev_ene = 41.731, ev_dirx = - 1, ev_diry = 0, ev_dirz = 0\<rparr>"

section \<open>Properties of the channel \<open>c12e\<close>\<close>

lemma epsilon_pos: "0 < epsilon"
  by (simp add: epsilon_def)

lemma sigma0_pos: "0 < sigma0"
  by (simp add: sigma0_def)

text \<open>The quadratic factor of the fitted cross section has no real root.\<close>

lemma quadratic_factor_pos: "0 < 10.164 - 0.4666 * x + 0.0546 * x ^ 2" for x :: real
proof -
  have "0 \<le> (0.0546 * x - 0.2333) ^ 2"
    by simp
  then show ?thesis
    by (simp add: power2_eq_square algebra_simps)
qed

lemma cubic_nonneg:
  fixes x :: real
  assumes "0 \<le> x"
  shows "0 \<le> 10.164 * x + (- 0.4666) * x ^ 2 + 0.0546 * x ^ 3"
proof -
  have "10.164 * x + (- 0.4666) * x ^ 2 + 0.0546 * x ^ 3
          = x * (10.164 - 0.4666 * x + 0.0546 * x ^ 2)"
    by (simp add: power2_eq_square power3_eq_cube algebra_simps)
  also have "0 \<le> \<dots>"
    using assms quadratic_factor_pos [of x] by (intro mult_nonneg_nonneg) simp_all
  finally show ?thesis
    by simp
qed

text \<open>
  Claim C7. Outside the window \<open>|eE - (eNu - e_thr)| \<le> epsilon\<close> the differential cross
  section \<open>dSigma_dE\<close> is 0, and so is the double differential event rate that
  \<open>main\<close> builds from it and hands to the quadrature, whatever the flux is. The function
  has no raising branch: it is a total function on the reals.
\<close>

theorem dSigma_dE_zero_outside:
  assumes "\<bar>eE - (eNu - e_thr)\<bar> > epsilon"
  shows "dSigma_dE eNu eE = 0 \<and>
         (ch_dSigma_dE (chan E) = dSigma_dE \<longrightarrow> ddEventRate E eE eNu time = 0)"
  using assms by (simp add: ddEventRate_def dSigma_dE_def get_eE_def abs_minus_commute)

theorem dSigma_dE_zero_outside_witness:
  "\<bar>0 - (20 - e_thr)\<bar> > epsilon \<and> dSigma_dE 20 0 = 0 \<and>
   ch_dSigma_dE (chan \<lparr>chan = c12e 1 11, nu_emission = (\<lambda>eNu t. 1), normalization = 1,
                          quad = (\<lambda>f a b. 0)\<rparr>) = dSigma_dE \<and>
   ddEventRate \<lparr>chan = c12e 1 11, nu_emission = (\<lambda>eNu t. 1), normalization = 1,
                quad = (\<lambda>f a b. 0)\<rparr> 0 20 5 = 0"
proof -
  have h: "\<bar>0 - (20 - e_thr)\<bar> > epsilon"
    by (simp add: e_thr_def epsilon_def)
  have c: "ch_dSigma_dE (chan \<lparr>chan = c12e 1 11, nu_emission = (\<lambda>eNu t. 1), normalization = 1,
                          quad = (\<lambda>f a b. 0)\<rparr>) = dSigma_dE"
    by (simp add: c12e_def)
  show ?thesis
    using h c dSigma_dE_zero_outside [OF h, of "\<lparr>chan = c12e 1 11,
      nu_emission = (\<lambda>eNu t. 1), normalization = 1, quad = (\<lambda>f a b. 0)\<rparr>" 5]
    by simp
qed

text \<open>
  Claim C9. From the threshold upwards, and so over the whole of \<open>bounds_eNu\<close>, the
  differential cross section is never negative, for every outgoing energy.
\<close>

theorem dSigma_dE_nonneg:
  "(e_thr \<le> eNu \<longrightarrow> 0 \<le> dSigma_dE eNu eE) \<and>
   (fst bounds_eNu \<le> eNu \<and> eNu \<le> snd bounds_eNu \<longrightarrow> 0 \<le> dSigma_dE eNu eE)"
  using cubic_nonneg [of "eNu - e_thr"] sigma0_pos
  by (simp add: dSigma_dE_def bounds_eNu_def Let_def epsilon_def zero_le_mult_iff)

theorem dSigma_dE_nonneg_witness:
  "e_thr \<le> 20 \<and> fst bounds_eNu \<le> 20 \<and> 20 \<le> snd bounds_eNu \<and>
   0 \<le> dSigma_dE 20 (20 - e_thr) \<and> dSigma_dE 20 (20 - e_thr) \<noteq> 0"
proof -
  have h: "e_thr \<le> 20" "fst bounds_eNu \<le> 20" "20 \<le> snd bounds_eNu"
    by (simp_all add: e_thr_def bounds_eNu_def)
  have "dSigma_dE 20 (20 - e_thr) \<noteq> 0"
    by (simp add: dSigma_dE_def get_eE_def e_thr_def epsilon_def sigma0_def
        power2_eq_square power3_eq_cube)
  then show ?thesis
    using h dSigma_dE_nonneg [of 20 "20 - e_thr"] by simp
qed

section \<open>Properties of the rejection sampler\<close>


lemma round_accepts_0:
  "round_accepts distf mn mx p s 0 \<longleftrightarrow> p * shd (stl s) < distf (mn + (mx - mn) * shd s)"
  by (simp add: round_accepts_def)

lemma round_accepts_Suc:
  "round_accepts distf mn mx p s (Suc k) \<longleftrightarrow> round_accepts distf mn mx p (stl (stl s)) k"
  by (simp add: round_accepts_def)

lemma accept_loop_first:
  assumes "round_accepts distf mn mx p s k" and "\<forall>i<k. \<not> round_accepts distf mn mx p s i"
  shows "accept_loop distf mn mx p s = Some (mn + (mx - mn) * (s !! (2 * k)), sdrop (2 * k + 2) s)"
  using assms
proof (induction k arbitrary: s)
  case 0
  then show ?case
    by (subst accept_loop.simps) (simp add: random_random_def round_accepts_0)
next
  case (Suc k)
  from Suc.prems(2) have n0: "\<not> round_accepts distf mn mx p s 0" by blast
  have a: "round_accepts distf mn mx p (stl (stl s)) k"
    using Suc.prems(1) by (simp add: round_accepts_Suc)
  have b: "\<forall>i<k. \<not> round_accepts distf mn mx p (stl (stl s)) i"
    using Suc.prems(2) by (auto simp flip: round_accepts_Suc)
  have "accept_loop distf mn mx p s = accept_loop distf mn mx p (stl (stl s))"
    using n0 by (subst accept_loop.simps) (simp add: random_random_def round_accepts_0)
  then show ?case
    using Suc.IH [OF a b] by simp
qed

lemma accept_loop_Some_round:
  assumes "accept_loop distf mn mx p s = Some y"
  shows "\<exists>k. round_accepts distf mn mx p s k \<and> (\<forall>i<k. \<not> round_accepts distf mn mx p s i)
     \<and> y = (mn + (mx - mn) * (s !! (2 * k)), sdrop (2 * k + 2) s)"
proof (rule accept_loop.raw_induct [where P = "\<lambda>distf mn mx p s y.
    \<exists>k. round_accepts distf mn mx p s k \<and> (\<forall>i<k. \<not> round_accepts distf mn mx p s i)
     \<and> y = (mn + (mx - mn) * (s !! (2 * k)), sdrop (2 * k + 2) s)", OF _ assms])
  fix f :: "(real \<Rightarrow> real) \<Rightarrow> real \<Rightarrow> real \<Rightarrow> real \<Rightarrow> rng \<Rightarrow> (real \<times> rng) option"
  fix distf mn mx p s y
  assume IH: "\<And>distf mn mx p s y. f distf mn mx p s = Some y \<Longrightarrow>
    \<exists>k. round_accepts distf mn mx p s k \<and> (\<forall>i<k. \<not> round_accepts distf mn mx p s i)
     \<and> y = (mn + (mx - mn) * (s !! (2 * k)), sdrop (2 * k + 2) s)"
  assume "(let (r1, s1) = random_random s; val = mn + (mx - mn) * r1; (r2, s2) = random_random s1
           in if p * r2 < distf val then Some (val, s2) else f distf mn mx p s2) = Some y"
  then have step: "(if round_accepts distf mn mx p s 0 then Some (mn + (mx - mn) * shd s, stl (stl s))
                    else f distf mn mx p (stl (stl s))) = Some y"
    by (simp add: random_random_def round_accepts_0 Let_def split: if_splits)
  show "\<exists>k. round_accepts distf mn mx p s k \<and> (\<forall>i<k. \<not> round_accepts distf mn mx p s i)
     \<and> y = (mn + (mx - mn) * (s !! (2 * k)), sdrop (2 * k + 2) s)"
  proof (cases "round_accepts distf mn mx p s 0")
    case True
    with step have "y = (mn + (mx - mn) * shd s, stl (stl s))"
      by simp
    with True show ?thesis by (intro exI [of _ 0]) simp
  next
    case False
    with step have "f distf mn mx p (stl (stl s)) = Some y"
      by simp
    from IH [OF this] obtain k where k: "round_accepts distf mn mx p (stl (stl s)) k"
      "\<forall>i<k. \<not> round_accepts distf mn mx p (stl (stl s)) i"
      "y = (mn + (mx - mn) * (stl (stl s) !! (2 * k)), sdrop (2 * k + 2) (stl (stl s)))"
      by blast
    have "\<forall>i<Suc k. \<not> round_accepts distf mn mx p s i"
    proof (intro allI impI)
      fix i assume "i < Suc k"
      then show "\<not> round_accepts distf mn mx p s i"
        using False k(2) by (cases i) (simp_all add: round_accepts_Suc)
    qed
    with k show ?thesis
      by (intro exI [of _ "Suc k"]) (simp add: round_accepts_Suc)
  qed
qed

lemma accept_loop_None:
  assumes "\<forall>k. \<not> round_accepts distf mn mx p s k"
  shows "accept_loop distf mn mx p s = None"
proof (cases "accept_loop distf mn mx p s")
  case None then show ?thesis .
next
  case (Some r)
  from accept_loop_Some_round [OF this] assms show ?thesis by blast
qed

lemma set_py_range:
  "0 < step \<Longrightarrow> set (py_range start stop step) = {j. start \<le> j \<and> j < stop \<and> (j - start) mod step = 0}"
proof (induction start stop step rule: py_range.induct)
  case (1 start stop step)
  show ?case
  proof (cases "start < stop")
    case False
    then show ?thesis by (subst py_range.simps) auto
  next
    case True
    have rec: "set (py_range (start + step) stop step)
        = {j. start + step \<le> j \<and> j < stop \<and> (j - (start + step)) mod step = 0}"
      using 1 True by simp
    have "{j. start \<le> j \<and> j < stop \<and> (j - start) mod step = 0}
        = insert start {j. start + step \<le> j \<and> j < stop \<and> (j - (start + step)) mod step = 0}"
      (is "?L = insert start ?R")
    proof (intro set_eqI iffI)
      fix j assume "j \<in> ?L"
      then have j: "start \<le> j" "j < stop" "step dvd (j - start)" by auto
      show "j \<in> insert start ?R"
      proof (cases "j = start")
        case False
        with j(1) have "0 < j - start" by simp
        with j(3) have "step \<le> j - start" using zdvd_imp_le by blast
        moreover have "step dvd (j - (start + step))"
          using j(3) by (simp add: diff_diff_add [symmetric])
        ultimately show ?thesis using j(2) by auto
      qed simp
    next
      fix j assume "j \<in> insert start ?R"
      then consider "j = start" | "j \<in> ?R" by blast
      then show "j \<in> ?L"
      proof cases
        case 1 then show ?thesis using True by simp
      next
        case 2
        then have "step dvd (j - (start + step))" "start + step \<le> j" "j < stop" by auto
        then have "step dvd (j - start)"
          by (metis diff_diff_add dvd_add_triv_right_iff diff_add_cancel)
        with 2 \<open>0 < step\<close> show ?thesis by auto
      qed
    qed
    with rec show ?thesis
      using True \<open>0 < step\<close> by (subst py_range.simps) simp
  qed
qed

lemma set_py_range_10: "set (py_range 0 n 10) = spec_coarse_cells n"
  by (simp add: set_py_range spec_coarse_cells_def)

lemma set_py_range_fine:
  "set (py_range (max (j_max - 9) 0) (min (j_max + 10) n) 1) = spec_fine_cells n j_max"
  by (auto simp add: set_py_range spec_fine_cells_def)

lemma coarse_pass_fst:
  "fst (coarse_pass distf mn bw js (p, j0))
     = Max (insert p ((\<lambda>j. distf (mn + bw * (real_of_int j + 0.5))) ` set js))"
proof (induction js arbitrary: p j0)
  case Nil
  then show ?case by simp
next
  case (Cons j js)
  let ?v = "distf (mn + bw * (real_of_int j + 0.5))"
  let ?S = "(\<lambda>j. distf (mn + bw * (real_of_int j + 0.5))) ` set js"
  have fin: "finite ?S" by simp
  have "Max (insert p (insert ?v ?S)) = Max (insert (max p ?v) ?S)"
    using fin by (cases "?S = {}") (simp_all add: max.assoc max.commute)
  then show ?case
    using Cons.IH by (simp add: Let_def max_def insert_commute)
qed

lemma coarse_pass_snd:
  assumes "coarse_pass distf mn bw js (p, j0) = (p', j')"
  shows "(p' = p \<and> j' = j0) \<or> (j' \<in> set js \<and> distf (mn + bw * (real_of_int j' + 0.5)) = p')"
  using assms
proof (induction js arbitrary: p j0)
  case Nil
  then show ?case by simp
next
  case (Cons j js)
  show ?case
  proof (cases "distf (mn + bw * (real_of_int j + 0.5)) > p")
    case True
    with Cons.prems have "coarse_pass distf mn bw js (distf (mn + bw * (real_of_int j + 0.5)), j) = (p', j')"
      by (simp add: Let_def)
    from Cons.IH [OF this] show ?thesis by auto
  next
    case False
    with Cons.prems have "coarse_pass distf mn bw js (p, j0) = (p', j')"
      by (simp add: Let_def)
    from Cons.IH [OF this] show ?thesis by auto
  qed
qed

lemma fine_pass_Max:
  "fine_pass distf mn bw js p
     = Max (insert p ((\<lambda>j. distf (mn + bw * (real_of_int j + 0.5))) ` set js))"
proof (induction js arbitrary: p)
  case Nil
  then show ?case by simp
next
  case (Cons j js)
  let ?v = "distf (mn + bw * (real_of_int j + 0.5))"
  let ?S = "(\<lambda>j. distf (mn + bw * (real_of_int j + 0.5))) ` set js"
  have fin: "finite ?S" by simp
  have "Max (insert p (insert ?v ?S)) = Max (insert (max p ?v) ?S)"
    using fin by (cases "?S = {}") (simp_all add: max.assoc max.commute)
  then show ?case
    using Cons.IH by (simp add: Let_def max_def insert_commute)
qed

lemma cell_center_eq:
  "mn + (mx - mn) / real_of_int n * (real_of_int j + 0.5) = spec_cell_center mn mx n j"
  by (simp add: spec_cell_center_def mult.commute)

lemma draw_val_in_range:
  assumes "unit_draws s" "mn \<le> mx"
  shows "mn \<le> mn + (mx - mn) * (s !! i) \<and> mn + (mx - mn) * (s !! i) \<le> mx"
proof -
  have r: "0 \<le> s !! i" "s !! i \<le> 1"
    using assms(1) by (simp_all add: unit_draws_def less_imp_le)
  have "0 \<le> (mx - mn) * (s !! i)"
    using r(1) assms(2) by simp
  moreover have "(mx - mn) * (s !! i) \<le> (mx - mn) * 1"
    using r(2) assms(2) by (intro mult_left_mono) simp_all
  ultimately show ?thesis by simp
qed

lemma cell_center_in_range:
  assumes "mn \<le> mx" "0 \<le> j" "j < n"
  shows "mn \<le> spec_cell_center mn mx n j \<and> spec_cell_center mn mx n j \<le> mx"
proof -
  have n: "0 < real_of_int n" using assms by simp
  have t0: "0 \<le> (real_of_int j + 1 / 2) / real_of_int n"
    using assms n by simp
  have "real_of_int j + 1 / 2 \<le> real_of_int n"
    using assms(3) by (simp add: int_less_real_le)
  then have t1: "(real_of_int j + 1 / 2) / real_of_int n \<le> 1"
    using n by simp
  have eq: "spec_cell_center mn mx n j = mn + (mx - mn) * ((real_of_int j + 1 / 2) / real_of_int n)"
    by (simp add: spec_cell_center_def)
  have "0 \<le> (mx - mn) * ((real_of_int j + 1 / 2) / real_of_int n)"
    using t0 assms(1) by (intro mult_nonneg_nonneg) simp_all
  moreover have "(mx - mn) * ((real_of_int j + 1 / 2) / real_of_int n) \<le> (mx - mn) * 1"
    using t1 assms(1) by (intro mult_left_mono) simp_all
  ultimately show ?thesis unfolding eq by simp
qed

lemma round_accepts_spec: "round_accepts distf mn mx p s k = spec_accepts distf mn mx p s k"
  by (simp add: round_accepts_def spec_accepts_def spec_draw_u_def spec_draw_val_def)

lemma rejection_sample_Returns_iff:
  assumes "n \<noteq> 0"
  shows "rejection_sample distf mn mx n s = Returns (v, s') \<longleftrightarrow>
     (\<exists>k. spec_accepts distf mn mx (estimate_p_max distf mn mx n) s k \<and>
          (\<forall>i<k. \<not> spec_accepts distf mn mx (estimate_p_max distf mn mx n) s i) \<and>
          v = spec_draw_val mn mx s k \<and> s' = sdrop (2 * k + 2) s)"
  (is "?L \<longleftrightarrow> ?R")
proof
  assume ?L
  then have "accept_loop distf mn mx (estimate_p_max distf mn mx n) s = Some (v, s')"
    using assms by (simp add: rejection_sample_def split: option.splits)
  from accept_loop_Some_round [OF this] show ?R
    by (auto simp add: round_accepts_spec spec_draw_val_def)
next
  assume ?R
  then obtain k where k: "round_accepts distf mn mx (estimate_p_max distf mn mx n) s k"
    "\<forall>i<k. \<not> round_accepts distf mn mx (estimate_p_max distf mn mx n) s i"
    "v = spec_draw_val mn mx s k" "s' = sdrop (2 * k + 2) s"
    by (auto simp add: round_accepts_spec)
  from accept_loop_first [OF k(1) k(2)] k(3) k(4) show ?L
    using assms by (simp add: rejection_sample_def spec_draw_val_def)
qed

lemma rejection_sample_Diverges_iff:
  assumes "n \<noteq> 0"
  shows "rejection_sample distf mn mx n s = Diverges \<longleftrightarrow>
     (\<forall>k. \<not> spec_accepts distf mn mx (estimate_p_max distf mn mx n) s k)"
  (is "?L \<longleftrightarrow> ?R")
proof
  assume ?L
  then have none: "accept_loop distf mn mx (estimate_p_max distf mn mx n) s = None"
    using assms by (simp add: rejection_sample_def split: option.splits)
  show ?R
  proof (rule ccontr)
    assume "\<not> ?R"
    then have "\<exists>k. round_accepts distf mn mx (estimate_p_max distf mn mx n) s k"
      by (simp add: round_accepts_spec)
    then obtain k where "round_accepts distf mn mx (estimate_p_max distf mn mx n) s k"
      "\<forall>i<k. \<not> round_accepts distf mn mx (estimate_p_max distf mn mx n) s i"
      using exists_least_iff [of "round_accepts distf mn mx (estimate_p_max distf mn mx n) s"]
      by blast
    from accept_loop_first [OF this] none show False by simp
  qed
next
  assume ?R
  then have "accept_loop distf mn mx (estimate_p_max distf mn mx n) s = None"
    by (intro accept_loop_None) (simp add: round_accepts_spec)
  then show ?L using assms by (simp add: rejection_sample_def)
qed

lemma estimate_p_max_spec:
  assumes "coarse_pass distf mn ((mx - mn) / real_of_int n) (py_range 0 n 10) (0, 0) = (p_c, j_c)"
  shows "p_c = Max (insert 0 ((\<lambda>j. distf (spec_cell_center mn mx n j)) ` spec_coarse_cells n))"
    and "(p_c = 0 \<and> j_c = 0) \<or>
         (j_c \<in> spec_coarse_cells n \<and> distf (spec_cell_center mn mx n j_c) = p_c)"
    and "estimate_p_max distf mn mx n
          = Max (insert p_c ((\<lambda>j. distf (spec_cell_center mn mx n j)) ` spec_fine_cells n j_c))"
proof -
  from coarse_pass_fst [of distf mn "(mx - mn) / real_of_int n" "py_range 0 n 10" 0 0,
      unfolded cell_center_eq set_py_range_10] assms
  show "p_c = Max (insert 0 ((\<lambda>j. distf (spec_cell_center mn mx n j)) ` spec_coarse_cells n))"
    by simp
  from coarse_pass_snd [OF assms, unfolded cell_center_eq set_py_range_10]
  show "(p_c = 0 \<and> j_c = 0) \<or>
         (j_c \<in> spec_coarse_cells n \<and> distf (spec_cell_center mn mx n j_c) = p_c)" .
  have "estimate_p_max distf mn mx n = fine_pass distf mn ((mx - mn) / real_of_int n)
           (py_range (max (j_c - 9) 0) (min (j_c + 10) n) 1) p_c"
    using assms by (simp add: estimate_p_max_def)
  then show "estimate_p_max distf mn mx n
          = Max (insert p_c ((\<lambda>j. distf (spec_cell_center mn mx n j)) ` spec_fine_cells n j_c))"
    unfolding fine_pass_Max cell_center_eq set_py_range_fine .
qed

text \<open>
  Claim C2. For \<open>n_bins \<noteq> 0\<close>, \<open>rejection_sample\<close> is the algorithm of the
  specification. The coarse pass returns the maximum of 0 and of \<open>dist\<close> at the centres
  of the cells \<open>0, 10, 20, ...\<close> below \<open>n_bins\<close>, with an index that is a coarse cell
  where that maximum is taken (or 0 while nothing exceeded 0). The estimate \<open>p_max\<close> is
  the maximum of that value and of \<open>dist\<close> at the centres of the cells within 9 of the
  index, clamped to \<open>[0, n_bins)\<close>. The call returns \<open>val\<close> exactly when \<open>val\<close> is
  the value of the first round whose \<open>u = p_max * random()\<close> is below \<open>dist val\<close>,
  leaving the generator after that round; it diverges exactly when no round accepts. With
  draws in \<open>[0, 1)\<close> and \<open>min_val \<le> max_val\<close>, every drawn value, and so every returned
  one, lies in \<open>[min_val, max_val]\<close>, and \<open>u\<close> lies in \<open>[0, p_max)\<close> when
  \<open>p_max\<close> is positive.
\<close>

theorem rejection_sample_follows_algorithm:
  assumes "n_bins \<noteq> 0"
  shows "\<exists>p_c j_c p_max.
     coarse_pass distf min_val ((max_val - min_val) / real_of_int n_bins) (py_range 0 n_bins 10) (0, 0)
       = (p_c, j_c) \<and>
     p_c = Max (insert 0 ((\<lambda>j. distf (spec_cell_center min_val max_val n_bins j)) ` spec_coarse_cells n_bins)) \<and>
     (p_c = 0 \<and> j_c = 0 \<or>
      j_c \<in> spec_coarse_cells n_bins \<and> distf (spec_cell_center min_val max_val n_bins j_c) = p_c) \<and>
     estimate_p_max distf min_val max_val n_bins = p_max \<and>
     p_max = Max (insert p_c ((\<lambda>j. distf (spec_cell_center min_val max_val n_bins j)) ` spec_fine_cells n_bins j_c)) \<and>
     (\<forall>val s'. rejection_sample distf min_val max_val n_bins s = Returns (val, s') \<longleftrightarrow>
        (\<exists>k. spec_accepts distf min_val max_val p_max s k \<and>
             (\<forall>i<k. \<not> spec_accepts distf min_val max_val p_max s i) \<and>
             val = spec_draw_val min_val max_val s k \<and> s' = sdrop (2 * k + 2) s)) \<and>
     (rejection_sample distf min_val max_val n_bins s = Diverges \<longleftrightarrow>
        (\<forall>k. \<not> spec_accepts distf min_val max_val p_max s k)) \<and>
     (unit_draws s \<and> min_val \<le> max_val \<longrightarrow>
        (\<forall>k. min_val \<le> spec_draw_val min_val max_val s k \<and> spec_draw_val min_val max_val s k \<le> max_val \<and>
             (0 < p_max \<longrightarrow> 0 \<le> spec_draw_u p_max s k \<and> spec_draw_u p_max s k < p_max)) \<and>
        (\<forall>val s'. rejection_sample distf min_val max_val n_bins s = Returns (val, s') \<longrightarrow>
             min_val \<le> val \<and> val \<le> max_val))"
proof -
  obtain p_c j_c where c:
    "coarse_pass distf min_val ((max_val - min_val) / real_of_int n_bins) (py_range 0 n_bins 10) (0, 0)
       = (p_c, j_c)"
    by (cases "coarse_pass distf min_val ((max_val - min_val) / real_of_int n_bins)
                 (py_range 0 n_bins 10) (0, 0)")
  let ?p = "estimate_p_max distf min_val max_val n_bins"
  note est = estimate_p_max_spec [OF c]
  have ret: "\<forall>val s'. rejection_sample distf min_val max_val n_bins s = Returns (val, s') \<longleftrightarrow>
        (\<exists>k. spec_accepts distf min_val max_val ?p s k \<and>
             (\<forall>i<k. \<not> spec_accepts distf min_val max_val ?p s i) \<and>
             val = spec_draw_val min_val max_val s k \<and> s' = sdrop (2 * k + 2) s)"
    using rejection_sample_Returns_iff [OF assms] by blast
  have div: "rejection_sample distf min_val max_val n_bins s = Diverges \<longleftrightarrow>
        (\<forall>k. \<not> spec_accepts distf min_val max_val ?p s k)"
    by (rule rejection_sample_Diverges_iff [OF assms])
  have rng: "unit_draws s \<and> min_val \<le> max_val \<longrightarrow>
        (\<forall>k. min_val \<le> spec_draw_val min_val max_val s k \<and> spec_draw_val min_val max_val s k \<le> max_val \<and>
             (0 < ?p \<longrightarrow> 0 \<le> spec_draw_u ?p s k \<and> spec_draw_u ?p s k < ?p))"
  proof (intro impI allI)
    fix k assume a: "unit_draws s \<and> min_val \<le> max_val"
    then have "0 \<le> s !! (2 * k + 1)" "s !! (2 * k + 1) < 1"
      unfolding unit_draws_def by blast+
    then have "0 < ?p \<longrightarrow> 0 \<le> spec_draw_u ?p s k \<and> spec_draw_u ?p s k < ?p"
      by (simp add: spec_draw_u_def)
    with draw_val_in_range [of s min_val max_val "2 * k"] a
    show "min_val \<le> spec_draw_val min_val max_val s k \<and> spec_draw_val min_val max_val s k \<le> max_val \<and>
             (0 < ?p \<longrightarrow> 0 \<le> spec_draw_u ?p s k \<and> spec_draw_u ?p s k < ?p)"
      by (simp add: spec_draw_val_def)
  qed
  have inr: "unit_draws s \<and> min_val \<le> max_val \<longrightarrow>
       (\<forall>val s'. rejection_sample distf min_val max_val n_bins s = Returns (val, s') \<longrightarrow>
             min_val \<le> val \<and> val \<le> max_val)"
  proof (intro impI allI)
    fix val s'
    assume a: "unit_draws s \<and> min_val \<le> max_val"
      and r: "rejection_sample distf min_val max_val n_bins s = Returns (val, s')"
    from ret r obtain k where "val = spec_draw_val min_val max_val s k"
      by blast
    with rng a show "min_val \<le> val \<and> val \<le> max_val"
      by simp
  qed
  have both: "unit_draws s \<and> min_val \<le> max_val \<longrightarrow>
        (\<forall>k. min_val \<le> spec_draw_val min_val max_val s k \<and> spec_draw_val min_val max_val s k \<le> max_val \<and>
             (0 < ?p \<longrightarrow> 0 \<le> spec_draw_u ?p s k \<and> spec_draw_u ?p s k < ?p)) \<and>
        (\<forall>val s'. rejection_sample distf min_val max_val n_bins s = Returns (val, s') \<longrightarrow>
             min_val \<le> val \<and> val \<le> max_val)"
    using rng inr by (intro impI conjI) (erule (1) mp)+
  show ?thesis
    apply (rule exI [of _ p_c], rule exI [of _ j_c], rule exI [of _ ?p])
    apply (intro conjI)
           apply (rule c)
          apply (rule est(1))
         apply (rule est(2))
        apply (rule refl)
       apply (rule est(3))
      apply (rule ret)
     apply (rule div)
    apply (rule both)
    done
qed

theorem rejection_sample_follows_algorithm_witness:
  "(20::int) \<noteq> 0 \<and> unit_draws (sconst (1 / 2)) \<and> (- 1::real) \<le> 1 \<and>
   estimate_p_max (dSigma_dCosT 20) (- 1) 1 20 = 1 / 2 \<and>
   rejection_sample (dSigma_dCosT 20) (- 1) 1 20 (sconst (1 / 2)) = Returns (0, sconst (1 / 2)) \<and>
   (\<exists>k. spec_accepts (dSigma_dCosT 20) (- 1) 1 (1 / 2) (sconst (1 / 2)) k \<and>
        (\<forall>i<k. \<not> spec_accepts (dSigma_dCosT 20) (- 1) 1 (1 / 2) (sconst (1 / 2)) i) \<and>
        0 = spec_draw_val (- 1) 1 (sconst (1 / 2)) k)"
proof -
  have n: "(20::int) \<noteq> 0"
    by simp
  have u: "unit_draws (sconst (1 / 2))"
    by (simp add: unit_draws_def)
  have p: "estimate_p_max (dSigma_dCosT 20) (- 1) 1 20 = 1 / 2"
    by (simp add: estimate_p_max_def py_range.simps dSigma_dCosT_def)
  have r: "rejection_sample (dSigma_dCosT 20) (- 1) 1 20 (sconst (1 / 2)) = Returns (0, sconst (1 / 2))"
    unfolding rejection_sample_def p
    by (subst accept_loop.simps) (simp add: random_random_def dSigma_dCosT_def)
  from rejection_sample_follows_algorithm [OF n, of "dSigma_dCosT 20" "- 1" 1 "sconst (1 / 2)"]
  obtain p_max where
    pm: "estimate_p_max (dSigma_dCosT 20) (- 1) 1 20 = p_max" and
    ret: "\<forall>val s'. rejection_sample (dSigma_dCosT 20) (- 1) 1 20 (sconst (1 / 2)) = Returns (val, s') \<longleftrightarrow>
        (\<exists>k. spec_accepts (dSigma_dCosT 20) (- 1) 1 p_max (sconst (1 / 2)) k \<and>
             (\<forall>i<k. \<not> spec_accepts (dSigma_dCosT 20) (- 1) 1 p_max (sconst (1 / 2)) i) \<and>
             val = spec_draw_val (- 1) 1 (sconst (1 / 2)) k \<and> s' = sdrop (2 * k + 2) (sconst (1 / 2)))"
    by blast
  from pm p have "p_max = 1 / 2"
    by simp
  with ret r have "\<exists>k. spec_accepts (dSigma_dCosT 20) (- 1) 1 (1 / 2) (sconst (1 / 2)) k \<and>
        (\<forall>i<k. \<not> spec_accepts (dSigma_dCosT 20) (- 1) 1 (1 / 2) (sconst (1 / 2)) i) \<and>
        0 = spec_draw_val (- 1) 1 (sconst (1 / 2)) k"
    by blast
  with n u p r show ?thesis
    by simp
qed

subsection \<open>A density that is zero everywhere\<close>

lemma Max_insert_image_const:
  assumes "finite S" "\<forall>j\<in>S. f j = c"
  shows "Max (insert c (f ` S)) = (c::real)"
proof -
  have "insert c (f ` S) = {c}"
    using assms(2) by auto
  then show ?thesis by (simp only: Max_singleton)
qed

lemma finite_spec_coarse_cells: "finite (spec_coarse_cells n)"
  by (rule finite_subset [of _ "{0..<n}"]) (auto simp add: spec_coarse_cells_def)

lemma finite_spec_fine_cells: "finite (spec_fine_cells n j)"
  by (rule finite_subset [of _ "{0..<n}"]) (auto simp add: spec_fine_cells_def)

lemma estimate_p_max_zero:
  assumes "min_val \<le> max_val"
    and zero: "\<forall>x. min_val \<le> x \<and> x \<le> max_val \<longrightarrow> distf x = 0"
  shows "estimate_p_max distf min_val max_val n_bins = 0"
proof -
  obtain p_c j_c where c:
    "coarse_pass distf min_val ((max_val - min_val) / real_of_int n_bins) (py_range 0 n_bins 10) (0, 0)
       = (p_c, j_c)"
    by (cases "coarse_pass distf min_val ((max_val - min_val) / real_of_int n_bins)
                 (py_range 0 n_bins 10) (0, 0)")
  have cell: "distf (spec_cell_center min_val max_val n_bins j) = 0" if "0 \<le> j" "j < n_bins" for j
    using cell_center_in_range [OF assms(1) that] zero by blast
  have "p_c = 0"
    unfolding estimate_p_max_spec(1) [OF c]
    by (rule Max_insert_image_const [OF finite_spec_coarse_cells])
       (simp add: spec_coarse_cells_def cell)
  then show ?thesis
    unfolding estimate_p_max_spec(3) [OF c]
    by (simp only:) (rule Max_insert_image_const [OF finite_spec_fine_cells],
        simp add: spec_fine_cells_def cell)
qed

text \<open>
  Claim C8. When \<open>dist\<close> is zero all over \<open>[min_val, max_val]\<close>, with
  \<open>min_val \<le> max_val\<close>, \<open>n_bins \<noteq> 0\<close> and draws in \<open>[0, 1)\<close>, the estimate
  \<open>p_max\<close> is 0, the test \<open>p_max * random() < dist val\<close> fails in every round, and
  the loop, which has no iteration cap, never returns: the call diverges, and raises
  nothing.
\<close>

theorem rejection_sample_zero_density_diverges:
  assumes "n_bins \<noteq> 0" and "min_val \<le> max_val" and "unit_draws s"
    and "\<forall>x. min_val \<le> x \<and> x \<le> max_val \<longrightarrow> distf x = 0"
  shows "estimate_p_max distf min_val max_val n_bins = 0 \<and>
         (\<forall>k. \<not> 0 * (s !! (2 * k + 1)) < distf (min_val + (max_val - min_val) * (s !! (2 * k)))) \<and>
         accept_loop distf min_val max_val 0 s = None \<and>
         rejection_sample distf min_val max_val n_bins s = Diverges"
proof -
  have p: "estimate_p_max distf min_val max_val n_bins = 0"
    by (rule estimate_p_max_zero [OF assms(2) assms(4)])
  have no: "\<not> round_accepts distf min_val max_val 0 s k" for k
    using draw_val_in_range [OF assms(3) assms(2), of "2 * k"] assms(4)
    by (simp add: round_accepts_def)
  then have none: "accept_loop distf min_val max_val 0 s = None"
    by (intro accept_loop_None) simp
  have "rejection_sample distf min_val max_val n_bins s = Diverges"
    using assms(1) none by (simp add: rejection_sample_def p)
  with p no none show ?thesis
    by (simp add: round_accepts_def)
qed

theorem rejection_sample_zero_density_diverges_witness:
  "(20::int) \<noteq> 0 \<and> (- 1::real) \<le> 1 \<and> unit_draws (sconst (1 / 2)) \<and>
   estimate_p_max (\<lambda>x. 0) (- 1) 1 20 = 0 \<and>
   rejection_sample (\<lambda>x. 0) (- 1) 1 20 (sconst (1 / 2)) = Diverges"
proof -
  have n: "(20::int) \<noteq> 0" and b: "(- 1::real) \<le> 1"
    by simp_all
  have u: "unit_draws (sconst (1 / 2))"
    by (simp add: unit_draws_def)
  have z: "\<forall>x::real. - 1 \<le> x \<and> x \<le> 1 \<longrightarrow> (\<lambda>x. 0::real) x = 0"
    by simp
  from rejection_sample_zero_density_diverges [OF n b u z] n b u show ?thesis
    by simp
qed

section \<open>Properties of the direction\<close>

lemma rejection_sample_in_range:
  assumes "rejection_sample distf mn mx n s = Returns (v, s')"
    and "n \<noteq> 0" and "unit_draws s" and "mn \<le> mx"
  shows "mn \<le> v \<and> v \<le> mx"
proof -
  from assms(1) rejection_sample_Returns_iff [OF assms(2), of distf mn mx s v s']
  obtain k where "v = spec_draw_val mn mx s k"
    by blast
  with draw_val_in_range [OF assms(3) assms(4), of "2 * k"] show ?thesis
    by (simp add: spec_draw_val_def)
qed


lemma rejection_sample_not_Raises:
  "n \<noteq> 0 \<Longrightarrow> rejection_sample distf mn mx n s \<noteq> Raises e"
  by (simp add: rejection_sample_def split: option.splits)

lemma direction_unit_norm:
  fixes cosT phi :: real
  assumes "- 1 \<le> cosT" "cosT \<le> 1"
  shows "(sin (arccos cosT) * cos phi)\<^sup>2 + (sin (arccos cosT) * sin phi)\<^sup>2 + cosT\<^sup>2 = 1"
proof -
  have "(sin (arccos cosT))\<^sup>2 = 1 - (cos (arccos cosT))\<^sup>2"
    by (rule sin_squared_eq)
  also have "\<dots> = 1 - cosT\<^sup>2"
    using assms by (simp add: cos_arccos)
  finally have s: "(sin (arccos cosT))\<^sup>2 = 1 - cosT\<^sup>2" .
  have "(sin (arccos cosT) * cos phi)\<^sup>2 + (sin (arccos cosT) * sin phi)\<^sup>2
          = (sin (arccos cosT))\<^sup>2 * ((cos phi)\<^sup>2 + (sin phi)\<^sup>2)"
    by (simp only: power_mult_distrib distrib_left)
  also have "\<dots> = 1 - cosT\<^sup>2"
    by (simp only: s add.commute [of "(cos phi)\<^sup>2"] sin_cos_squared_add mult_1_right)
  finally show ?thesis
    by simp
qed

lemma get_direction_Returns:
  assumes "get_direction E eNu s = Returns ((dx, dy, dz), s')"
  shows "\<exists>cosT s1. rejection_sample (ch_dSigma_dCosT (chan E) eNu) (- 1) 1 200 s = Returns (cosT, s1) \<and>
           - 1 \<le> cosT \<and> cosT \<le> 1 \<and>
           dx = sin (arccos cosT) * cos (2 * pi * shd s1) \<and>
           dy = sin (arccos cosT) * sin (2 * pi * shd s1) \<and>
           dz = cosT \<and> s' = stl s1"
  using assms
  by (auto simp add: get_direction_def random_random_def Let_def
      split: outcome.splits prod.splits if_splits)

text \<open>
  Claim C5. Every vector that \<open>get_direction\<close> returns has Euclidean norm 1, in real
  arithmetic; so has \<open>(sin(acos c) cos phi, sin(acos c) sin phi, c)\<close> for every \<open>c\<close>
  in \<open>[-1, 1]\<close> and every \<open>phi\<close>. With draws in \<open>[0, 1)\<close> the call raises nothing:
  the sampled cosine is within the domain of \<open>acos\<close>.
\<close>

theorem get_direction_unit_norm:
  "(get_direction E eNu s = Returns ((dirx, diry, dirz), s') \<longrightarrow>
      dirx\<^sup>2 + diry\<^sup>2 + dirz\<^sup>2 = 1 \<and> sqrt (dirx\<^sup>2 + diry\<^sup>2 + dirz\<^sup>2) = 1) \<and>
   (- 1 \<le> cosT \<and> cosT \<le> 1 \<longrightarrow>
      sqrt ((sin (arccos cosT) * cos phi)\<^sup>2 + (sin (arccos cosT) * sin phi)\<^sup>2 + cosT\<^sup>2) = 1) \<and>
   (unit_draws s \<longrightarrow> get_direction E eNu s \<noteq> Raises e)"
proof (intro conjI impI)
  assume r: "get_direction E eNu s = Returns ((dirx, diry, dirz), s')"
  from get_direction_Returns [OF r] direction_unit_norm
  show n: "dirx\<^sup>2 + diry\<^sup>2 + dirz\<^sup>2 = 1"
    by blast
  show "sqrt (dirx\<^sup>2 + diry\<^sup>2 + dirz\<^sup>2) = 1"
    by (simp add: n)
next
  assume "- 1 \<le> cosT \<and> cosT \<le> 1"
  then show "sqrt ((sin (arccos cosT) * cos phi)\<^sup>2 + (sin (arccos cosT) * sin phi)\<^sup>2 + cosT\<^sup>2) = 1"
    by (simp add: direction_unit_norm)
next
  assume u: "unit_draws s"
  show "get_direction E eNu s \<noteq> Raises e"
  proof (cases "rejection_sample (ch_dSigma_dCosT (chan E) eNu) (- 1) 1 200 s")
    case (Returns r)
    obtain cosT s1 where r: "r = (cosT, s1)"
      by (cases r)
    from rejection_sample_in_range [OF Returns [unfolded r] _ u] have "- 1 \<le> cosT \<and> cosT \<le> 1"
      by simp
    then show ?thesis
      using Returns r by (simp add: get_direction_def random_random_def Let_def)
  next
    case (Raises e')
    with rejection_sample_not_Raises [of 200] show ?thesis
      by simp
  next
    case Diverges
    then show ?thesis
      by (simp add: get_direction_def)
  qed
qed

section \<open>Properties of rounding to a double\<close>

lemma rhe_of_int: "round_half_even (real_of_int k) = k"
  by (simp add: round_half_even_def)







lemma double_ulp_pos: "0 < double_ulp x"
  by (simp add: double_ulp_def)








lemma double_exponent_eqI:
  assumes "2 powr real_of_int e \<le> \<bar>x\<bar>" "\<bar>x\<bar> < 2 powr real_of_int (e + 1)" "- 1022 \<le> e"
  shows "double_exponent x = e"
proof -
  have "0 < \<bar>x\<bar>"
    using assms(1) powr_gt_zero [of 2 "real_of_int e"] by linarith
  then have "\<lfloor>log 2 \<bar>x\<bar>\<rfloor> = e"
    using floor_log_eq_powr_iff [of "\<bar>x\<bar>" 2 e] assms(1,2) by simp
  then show ?thesis
    using assms(3) by (simp add: double_exponent_def)
qed






lemma round_double_0: "round_double 0 = 0"
  by (simp add: round_double_def)

lemma round_double_exact:
  assumes "x = real_of_int k * double_ulp x"
  shows "round_double x = x"
proof (cases "x = 0")
  case True
  then show ?thesis by (simp add: round_double_0)
next
  case False
  have "x / double_ulp x = real_of_int k"
    using assms double_ulp_pos [of x] by (simp add: field_simps)
  then have "round_half_even (x / double_ulp x) = k"
    by (simp only: rhe_of_int)
  with False assms show ?thesis
    by (simp add: round_double_def)
qed








lemma round_double_exactI:
  assumes "2 powr real_of_int e \<le> \<bar>x\<bar>" "\<bar>x\<bar> < 2 powr real_of_int (e + 1)" "- 1022 \<le> e"
    and "x = real_of_int k * 2 powr real_of_int (e - 52)"
  shows "round_double x = x"
proof -
  have "double_exponent x = e"
    using assms(1-3) by (rule double_exponent_eqI)
  then have "double_ulp x = 2 powr real_of_int (e - 52)"
    by (simp add: double_ulp_def)
  with assms(4) show ?thesis
    by (intro round_double_exact [of _ k]) simp
qed

lemma round_double_values:
  "round_double 1 = 1" "round_double 2 = 2" "round_double (1 / 2) = 1 / 2"
  "round_double (3 / 2) = 3 / 2" "round_double (15 / 2) = 15 / 2"
  "round_double (1 - 1 / 2 ^ 53) = 1 - 1 / 2 ^ 53"
       apply (rule round_double_exactI [of 0 _ "2 ^ 52"]; simp add: powr_neg_numeral)
      apply (rule round_double_exactI [of 1 _ "2 ^ 52"]; simp add: powr_neg_numeral)
     apply (rule round_double_exactI [of "- 1" _ "2 ^ 52"]; simp add: powr_neg_numeral)
    apply (rule round_double_exactI [of 0 _ "3 * 2 ^ 51"]; simp add: powr_neg_numeral)
   apply (rule round_double_exactI [of 2 _ "15 * 2 ^ 49"]; simp add: powr_neg_numeral)
  apply (rule round_double_exactI [of "- 1" _ "2 ^ 53 - 1"]; simp add: powr_neg_numeral)
  done



section \<open>Properties of the event loops\<close>



lemma gen_event_Returns:
  assumes "gen_event E boundsMin binned_t i s = Returns (ev, s')"
  shows "\<exists>bt eNu s2 dirx diry dirz.
           py_index binned_t i = Inr bt \<and>
           get_eNu E bt (stl s) = Returns (eNu, s2) \<and>
           get_direction E eNu s2 = Returns ((dirx, diry, dirz), s') \<and>
           ev = \<lparr>ev_t = round_double (boundsMin + round_double (shd s * bin_width)),
                 ev_pid = ch_pid (chan E),
                 ev_ene = ch_get_eE (chan E) eNu dirz,
                 ev_dirx = dirx, ev_diry = diry, ev_dirz = dirz\<rparr>"
  using assms
  by (simp add: gen_event_def random_random_def Let_def
      split: sum.splits outcome.splits prod.splits)




section \<open>Properties of \<open>main\<close>: bins, lines and times\<close>










section \<open>A run of the example\<close>

lemma unit_draws_example: "unit_draws (sconst (1 / 2))"
  by (simp add: unit_draws_def)

lemma example_get_direction:
  "get_direction example_env eNu (sconst (1 / 2)) = Returns ((- 1, 0, 0), sconst (1 / 2))"
proof -
  have p: "estimate_p_max (dSigma_dCosT eNu) (- 1) 1 200 = 1 / 2"
    by (simp add: estimate_p_max_def py_range.simps dSigma_dCosT_def)
  have "rejection_sample (dSigma_dCosT eNu) (- 1) 1 200 (sconst (1 / 2)) = Returns (0, sconst (1 / 2))"
    unfolding rejection_sample_def p
    by (subst accept_loop.simps) (simp add: random_random_def dSigma_dCosT_def)
  then show ?thesis
    by (simp add: get_direction_def example_env_def c12e_def random_random_def)
qed

lemma example_get_eNu:
  "get_eNu example_env time (sconst (1 / 2)) = Returns (59.069, sconst (1 / 2))"
proof -
  have p: "estimate_p_max (\<lambda>eNu'. 1) (e_thr + 0.8) 100 200 = 1"
    by (simp add: estimate_p_max_def py_range.simps)
  have "rejection_sample (\<lambda>eNu'. 1) (e_thr + 0.8) 100 200 (sconst (1 / 2))
          = Returns (59.069, sconst (1 / 2))"
    unfolding rejection_sample_def p
    by (subst accept_loop.simps) (simp add: random_random_def e_thr_def)
  then show ?thesis
    by (simp add: get_eNu_def example_env_def c12e_def bounds_eNu_def)
qed

lemma example_gen_event:
  assumes "py_index binned_t i = Inr bt"
  shows "gen_event example_env boundsMin binned_t i (sconst (1 / 2))
           = Returns (example_event (round_double (boundsMin + 1 / 2)), sconst (1 / 2))"
proof -
  have "ch_get_eE (chan example_env) 59.069 0 = 41.731" "ch_pid (chan example_env) = 11"
    by (simp_all add: example_env_def c12e_def get_eE_def e_thr_def)
  then show ?thesis
    by (simp add: gen_event_def random_random_def assms example_get_eNu example_get_direction
        example_event_def bin_width_def round_double_values)
qed














theorem get_direction_unit_norm_witness:
  "unit_draws (sconst (1 / 2)) \<and>
   get_direction example_env 20 (sconst (1 / 2)) = Returns ((- 1, 0, 0), sconst (1 / 2)) \<and>
   sqrt ((- 1)\<^sup>2 + 0\<^sup>2 + 0\<^sup>2) = (1::real) \<and>
   (- 1 \<le> (0::real) \<and> (0::real) \<le> 1) \<and>
   sqrt ((sin (arccos 0) * cos pi)\<^sup>2 + (sin (arccos 0) * sin pi)\<^sup>2 + 0\<^sup>2) = (1::real) \<and>
   get_direction example_env 20 (sconst (1 / 2)) \<noteq> Raises ValueError"
proof -
  have c: "- 1 \<le> (0::real) \<and> (0::real) \<le> 1"
    by simp
  from get_direction_unit_norm [of example_env 20 "sconst (1 / 2)" "- 1" 0 0 "sconst (1 / 2)" 0 pi
      ValueError] example_get_direction [of 20] unit_draws_example c
  show ?thesis
    by blast
qed

section \<open>Properties of the preparation section\<close>

lemma raw_nevts_loop_eq:
  "raw_nevts_loop nquad n_targets ts (raw_nevts, calls)
     = (raw_nevts @ map (\<lambda>t. n_targets * nquad t) ts, calls @ map Call_nquad ts)"
  by (induction ts arbitrary: raw_nevts calls) (simp_all add: Let_def)

lemma detectors_SuperK: "detectors ''SuperK'' = Some 32.5"
  by (simp add: detectors_def)

text \<open>
  Claim C6, as the code has it. \<open>main\<close> makes no check of the number of time samples. For a
  known detector and any list of samples, also one shorter than 2, it integrates once per
  sample and then calls the interpolation constructor on the samples; what \<open>main\<close>
  returns or raises at that point is what the constructor returns or raises.
\<close>

theorem main_prepare_calls_pchip_unchecked:
  assumes "detectors detector = Some mass"
  shows "main_prepare ch detector nquad pchip raw_times =
           (map Call_nquad raw_times @
              [Call_pchip raw_times
                 (map (\<lambda>t. ch_targets_per_molecule ch * molecules_per_kt * mass * nquad t) raw_times)],
            pchip raw_times
              (map (\<lambda>t. ch_targets_per_molecule ch * molecules_per_kt * mass * nquad t) raw_times))"
  using assms by (simp add: main_prepare_def raw_nevts_loop_eq Let_def)

theorem main_prepare_calls_pchip_unchecked_witness:
  "detectors ''SuperK'' = Some 32.5 \<and>
   main_prepare (c12e 1 11) ''SuperK'' (\<lambda>t. 0)
       (\<lambda>ts ys. if length ts < 2 then Inl ValueError else Inr (length ys)) [3, 4]
     = ([Call_nquad 3, Call_nquad 4, Call_pchip [3, 4] [0, 0]], Inr 2)"
  using main_prepare_calls_pchip_unchecked [OF detectors_SuperK, of "c12e 1 11" "\<lambda>t. 0"
      "\<lambda>ts ys. if length ts < 2 then Inl ValueError else Inr (length ys)" "[3, 4]"]
    detectors_SuperK
  by simp

text \<open>
  Claim C6 as stated fails at one sample: \<open>main\<close> integrates it and calls the
  interpolation constructor, and the error of the run is the one raised in there.
\<close>

theorem sample_count_precheck_counterexample:
  "main_prepare (c12e 1 11) ''SuperK'' (\<lambda>t. 0)
       (\<lambda>ts ys. if length ts < 2 then Inl ValueError else Inr (length ys)) [5]
     = ([Call_nquad 5, Call_pchip [5] [0]], Inl ValueError)"
  by (simp add: main_prepare_def detectors_def Let_def)

section \<open>The outgoing energy\<close>

text \<open>
  Claim C10. \<open>get_eE\<close> does not depend on the cosine: it is \<open>eNu - e_thr\<close> for every
  direction, and that value lies within \<open>bounds_eE eNu\<close>, which is
  \<open>[eNu - e_thr - epsilon, eNu - e_thr + epsilon]\<close>. So the energy of every event that
  \<open>main\<close> generates in this channel is \<open>eNu - e_thr\<close> for the sampled neutrino energy
  \<open>eNu\<close>, within the channel's bounds for that \<open>eNu\<close>.
\<close>

theorem get_eE_independent_of_direction:
  "get_eE eNu cosT1 = get_eE eNu cosT2 \<and>
   get_eE eNu cosT1 = eNu - e_thr \<and>
   bounds_eE eNu = (eNu - e_thr - epsilon, eNu - e_thr + epsilon) \<and>
   fst (bounds_eE eNu) \<le> get_eE eNu cosT1 \<and> get_eE eNu cosT1 \<le> snd (bounds_eE eNu) \<and>
   (gen_event E boundsMin binned_t i s = Returns (ev, s') \<and>
    ch_get_eE (chan E) = get_eE \<and> ch_bounds_eE (chan E) = bounds_eE \<longrightarrow>
      (\<exists>bt eNu' s2. get_eNu E bt (stl s) = Returns (eNu', s2) \<and>
         ev_ene ev = eNu' - e_thr \<and>
         fst (ch_bounds_eE (chan E) eNu') \<le> ev_ene ev \<and>
         ev_ene ev \<le> snd (ch_bounds_eE (chan E) eNu')))"
proof -
  have ch: "get_eE eNu cosT1 = get_eE eNu cosT2 \<and>
   get_eE eNu cosT1 = eNu - e_thr \<and>
   bounds_eE eNu = (eNu - e_thr - epsilon, eNu - e_thr + epsilon) \<and>
   fst (bounds_eE eNu) \<le> get_eE eNu cosT1 \<and> get_eE eNu cosT1 \<le> snd (bounds_eE eNu)"
    using epsilon_pos by (simp add: get_eE_def bounds_eE_def)
  have "\<exists>bt eNu' s2. get_eNu E bt (stl s) = Returns (eNu', s2) \<and>
         ev_ene ev = eNu' - e_thr \<and>
         fst (ch_bounds_eE (chan E) eNu') \<le> ev_ene ev \<and>
         ev_ene ev \<le> snd (ch_bounds_eE (chan E) eNu')"
    if g: "gen_event E boundsMin binned_t i s = Returns (ev, s')"
      and c: "ch_get_eE (chan E) = get_eE" "ch_bounds_eE (chan E) = bounds_eE"
  proof -
    from gen_event_Returns [OF g] obtain bt eNu' s2 dirz where
      e: "get_eNu E bt (stl s) = Returns (eNu', s2)"
      and v: "ev_ene ev = ch_get_eE (chan E) eNu' dirz"
      by auto
    have "ev_ene ev = eNu' - e_thr"
      by (simp add: v c get_eE_def)
    then show ?thesis
      using e epsilon_pos by (intro exI [of _ bt] exI [of _ eNu'] exI [of _ s2])
        (simp add: c bounds_eE_def get_eE_def)
  qed
  with ch show ?thesis
    by blast
qed

theorem get_eE_independent_of_direction_witness:
  "gen_event example_env 7 [1 / 2, 3 / 2] 1 (sconst (1 / 2))
     = Returns (example_event (15 / 2), sconst (1 / 2)) \<and>
   ch_get_eE (chan example_env) = get_eE \<and> ch_bounds_eE (chan example_env) = bounds_eE \<and>
   (\<exists>bt eNu' s2. get_eNu example_env bt (stl (sconst (1 / 2))) = Returns (eNu', s2) \<and>
      ev_ene (example_event (15 / 2)) = eNu' - e_thr \<and>
      fst (ch_bounds_eE (chan example_env) eNu') \<le> ev_ene (example_event (15 / 2)) \<and>
      ev_ene (example_event (15 / 2)) \<le> snd (ch_bounds_eE (chan example_env) eNu'))"
proof -
  have i1: "py_index [1 / 2, 3 / 2 :: real] 1 = Inr (3 / 2)"
    by (simp add: py_index_def)
  have g: "gen_event example_env 7 [1 / 2, 3 / 2] 1 (sconst (1 / 2))
     = Returns (example_event (15 / 2), sconst (1 / 2))"
    using example_gen_event [OF i1, of 7] by (simp add: round_double_values)
  have c: "ch_get_eE (chan example_env) = get_eE" "ch_bounds_eE (chan example_env) = bounds_eE"
    by (simp_all add: example_env_def c12e_def)
  from get_eE_independent_of_direction [of 0 0 0 example_env 7 "[1 / 2, 3 / 2]" 1 "sconst (1 / 2)"
      "example_event (15 / 2)" "sconst (1 / 2)"] g c
  show ?thesis
    by blast
qed

end
